theory Spec2Isabelle
  imports Complex_Main "HOL-Library.Sublist"
begin

section \<open>Errors\<close>

text \<open>
  The exceptions the modelled code can raise.  \<open>TypeError\<close> is what Python raises when a
  class with abstract methods is instantiated, \<open>ZeroDivisionError\<close> what float division
  by \<open>0.0\<close> raises, \<open>AttributeError\<close> what a method call on something that is no component
  raises, and \<open>ConfigurationError\<close> is the construction failure of the tunables.
\<close>

datatype error = ConfigurationError | TypeError | ZeroDivisionError | AttributeError

section \<open>AdaptiveDCEncoder (hardware/adaptive\_dc\_encoder.py)\<close>

text \<open>
  Python floats are idealised as real numbers and \<open>math.pi\<close> as \<^term>\<open>pi\<close>; the
  comparisons and the branch structure are those of the source.  The two fields that
  \<open>__init__\<close> creates are the rolling state of the encoder.
\<close>

record encoder =
  prev_time :: real
  prev_angle :: real

text \<open>
  Modelled from the spec: \<open>adaptive_robot.utils.math_utils.rotations_to_radians\<close> is not
  among the sources.  Section 4.4 gives the conversion: \<open>angle = r * 2\<pi>\<close>, or
  \<open>r * 2\<pi> / g\<close> when a gear ratio is supplied.  Dividing by a gear ratio of \<open>0.0\<close> raises
  in Python, so the result is a sum.
\<close>

definition rotations_to_radians :: "real \<Rightarrow> real option \<Rightarrow> error + real" where
  "rotations_to_radians rotations gear_ratio =
     (case gear_ratio of
        None \<Rightarrow> Inr (rotations * (2 * pi))
      | Some g \<Rightarrow> if g = 0 then Inl ZeroDivisionError else Inr (rotations * (2 * pi) / g))"

text \<open>
  \<open>get_position\<close>: \<open>rotations\<close> is the value that \<open>self.get()\<close> reads from the hardware.
\<close>

definition get_position :: "real \<Rightarrow> real option \<Rightarrow> error + real" where
  "get_position rotations gear_ratio =
     (case gear_ratio of
        None \<Rightarrow> rotations_to_radians rotations None
      | Some g \<Rightarrow> rotations_to_radians rotations (Some g))"

text \<open>
  \<open>__init__\<close>: \<open>now\<close> is the value of \<open>Timer.getFPGATimestamp()\<close>, \<open>rotations\<close> the
  hardware reading at construction.
\<close>

definition encoder_init :: "real \<Rightarrow> real \<Rightarrow> error + encoder" where
  "encoder_init now rotations =
     (case get_position rotations None of
        Inl e \<Rightarrow> Inl e
      | Inr angle \<Rightarrow> Inr \<lparr>prev_time = now, prev_angle = angle\<rparr>)"

text \<open>The block under the comment \<open># Unwrap\<close> of \<open>get_velocity\<close>.\<close>

definition unwrap :: "real \<Rightarrow> real" where
  "unwrap delta =
     (if delta > pi then delta - 2 * pi
      else if delta < - pi then delta + 2 * pi
      else delta)"

text \<open>
  The body of \<open>get_velocity\<close> after its two reads, \<open>now\<close> and \<open>angle\<close>.  It returns the
  velocity together with the encoder as the call leaves it.
\<close>

definition velocity_step :: "real \<Rightarrow> real \<Rightarrow> encoder \<Rightarrow> real \<times> encoder" where
  "velocity_step now angle e =
     (let dt = now - prev_time e in
      if dt \<le> 0 then (0, e)
      else
        let delta = unwrap (angle - prev_angle e) in
        (delta / dt, e\<lparr>prev_angle := angle, prev_time := now\<rparr>))"

text \<open>
  \<open>get_velocity\<close>: \<open>now\<close> is the value of \<open>Timer.getFPGATimestamp()\<close> and \<open>rotations\<close>
  the hardware reading during the call.
\<close>

definition get_velocity :: "real \<Rightarrow> real \<Rightarrow> encoder \<Rightarrow> error + real \<times> encoder" where
  "get_velocity now rotations e =
     (case get_position rotations None of
        Inl err \<Rightarrow> Inl err
      | Inr angle \<Rightarrow> Inr (velocity_step now angle e))"

section \<open>Tunables (adaptive\_robot.tunable)\<close>

text \<open>
  The primitive types a tunable or a telemetry value can have (\<open>TunableType\<close>,
  \<open>primitive_type\<close>): boolean, integer, float and string.
\<close>

datatype TunableType = TBool bool | TInt int | TFloat real | TStr string

text \<open>The external configuration store (NetworkTables): a key-value service.\<close>

type_synonym config_store = "string \<rightharpoonup> TunableType"

text \<open>
  Modelled from the spec: the class \<open>TunableValue\<close> of
  \<open>adaptive_robot.tunable.tunable_value\<close> is not among the sources.  Section 3 and
  section 4.1 describe it: a key (its storage path), a default of a fixed primitive type
  and the current resolved value; construction stores key and default, initialises the
  resolved value to the default and fails with \<open>ConfigurationError\<close> on an empty key (the
  detection of duplicate keys is optional there and is not modelled); \<open>update\<close> reads the
  key from the store, reverts to the default when it is absent and replaces the resolved
  value when it is present.
\<close>

record 'a TunableValue =
  tv_key :: string
  tv_default :: 'a
  tv_value :: 'a

definition TunableValue_init :: "string \<Rightarrow> 'a \<Rightarrow> error + 'a TunableValue" where
  "TunableValue_init directory dflt =
     (if directory = [] then Inl ConfigurationError
      else Inr \<lparr>tv_key = directory, tv_default = dflt, tv_value = dflt\<rparr>)"

text \<open>
  The read of the store is typed, which is what keeps the type of the resolved value fixed
  (section 3): \<open>decode\<close> turns a stored primitive into a value of the tunable's type, and
  an entry it rejects counts as absent.
\<close>

definition TunableValue_update ::
  "(TunableType \<Rightarrow> 'a option) \<Rightarrow> config_store \<Rightarrow> 'a TunableValue \<Rightarrow> 'a TunableValue" where
  "TunableValue_update decode st tv =
     (case Option.bind (st (tv_key tv)) decode of
        None \<Rightarrow> tv\<lparr>tv_value := tv_default tv\<rparr>
      | Some v \<Rightarrow> tv\<lparr>tv_value := v\<rparr>)"

fun same_type :: "TunableType \<Rightarrow> TunableType \<Rightarrow> bool" where
  "same_type (TBool _) (TBool _) = True"
| "same_type (TInt _) (TInt _) = True"
| "same_type (TFloat _) (TFloat _) = True"
| "same_type (TStr _) (TStr _) = True"
| "same_type _ _ = False"

definition as_type_of :: "TunableType \<Rightarrow> TunableType \<Rightarrow> TunableType option" where
  "as_type_of dflt v = (if same_type dflt v then Some v else None)"

fun as_float :: "TunableType \<Rightarrow> real option" where
  "as_float (TFloat x) = Some x"
| "as_float _ = None"

text \<open>
  Modelled from the spec: the class \<open>TunablePIDController\<close> of
  \<open>adaptive_robot.tunable.tunable_pid_controller\<close> is not among the sources.  Section 3
  and section 4.2 describe it: three float tunables, a period and a snapshot of the three
  current coefficients; construction fails with \<open>ConfigurationError\<close> if the period is
  not positive or a default gain is negative; \<open>update_from_tunables\<close> updates kp, ki and kd
  in that order and then replaces the snapshot by the three resolved values, without a
  check of their sign.
\<close>

record TunablePIDController =
  kp :: "real TunableValue"
  ki :: "real TunableValue"
  kd :: "real TunableValue"
  period :: real
  coefficients :: "real \<times> real \<times> real"

definition TunablePIDController_init ::
  "real TunableValue \<Rightarrow> real TunableValue \<Rightarrow> real TunableValue \<Rightarrow> real
     \<Rightarrow> error + TunablePIDController" where
  "TunablePIDController_init p i d per =
     (if per \<le> 0 \<or> tv_default p < 0 \<or> tv_default i < 0 \<or> tv_default d < 0
      then Inl ConfigurationError
      else Inr \<lparr>kp = p, ki = i, kd = d, period = per,
                coefficients = (tv_value p, tv_value i, tv_value d)\<rparr>)"

definition update_from_tunables :: "config_store \<Rightarrow> TunablePIDController \<Rightarrow> TunablePIDController" where
  "update_from_tunables st pid =
     (let p = TunableValue_update as_float st (kp pid);
          i = TunableValue_update as_float st (ki pid);
          d = TunableValue_update as_float st (kd pid)
      in pid\<lparr>kp := p, ki := i, kd := d,
              coefficients := (tv_value p, tv_value i, tv_value d)\<rparr>)"

section \<open>AdaptiveComponent (adaptive\_component.py)\<close>

text \<open>
  Objects live in a store and are named by references, so that the identity of a tunable
  that a factory returns can be compared with the entry of the component's list.
\<close>

type_synonym ref = nat

text \<open>
  A concrete subclass of \<open>AdaptiveComponent\<close>: what it defines for the two methods that
  are not \<open>@final\<close>.  Its own state has the type \<open>'u\<close>; \<open>execute\<close> changes it, and
  \<open>publish_telemetry\<close> computes from it the values it hands to \<open>publish_value\<close>.
\<close>

record 'u component_class =
  defines_publish_telemetry :: "('u \<Rightarrow> (string \<times> TunableType) list) option"
  defines_execute :: "('u \<Rightarrow> 'u) option"

text \<open>An instance: the fields that \<open>__init__\<close> sets, its class and the subclass's state.\<close>

record 'u AdaptiveComponent =
  robot :: ref
  tunables :: "ref list"
  tunable_pids :: "ref list"
  cls :: "'u component_class"
  user :: 'u

text \<open>
  The lifecycle steps and the calls they make are recorded in a trace, the sequence
  counters with which section 8 of the specification instruments a cycle.
\<close>

datatype step = UpdateTunableConstants | UpdateTunablePIDs | PublishTelemetry | Execute

datatype event = Step ref step | Update ref | UpdateFromTunables ref

record 'u world =
  store :: config_store
  tunable_values :: "ref \<rightharpoonup> TunableType TunableValue"
  pid_controllers :: "ref \<rightharpoonup> TunablePIDController"
  components :: "ref \<rightharpoonup> 'u AdaptiveComponent"
  registry :: "ref \<Rightarrow> ref list"
  next_ref :: ref
  telemetry :: "(string \<times> TunableType) list"
  trace :: "event list"

definition empty_world :: "'u world" where
  "empty_world =
     \<lparr>store = Map.empty, tunable_values = Map.empty, pid_controllers = Map.empty,
      components = Map.empty, registry = (\<lambda>_. []), next_ref = 0, telemetry = [],
      trace = []\<rparr>"

text \<open>
  Every reference in use is below the allocation counter, so that the next object is new.
\<close>

definition wf_world :: "'u world \<Rightarrow> bool" where
  "wf_world w \<longleftrightarrow>
     (\<forall>r. r \<in> dom (tunable_values w) \<longrightarrow> r < next_ref w) \<and>
     (\<forall>r. r \<in> dom (pid_controllers w) \<longrightarrow> r < next_ref w) \<and>
     (\<forall>c. c \<in> dom (components w) \<longrightarrow> c < next_ref w) \<and>
     (\<forall>c self r. components w c = Some self \<longrightarrow>
        r \<in> set (tunables self) \<union> set (tunable_pids self) \<longrightarrow> r < next_ref w) \<and>
     (\<forall>rb c. c \<in> set (registry w rb) \<longrightarrow> c < next_ref w)"

text \<open>
  Modelled from the spec: \<open>AdaptiveRobot.add_component\<close> is not among the sources.  The
  robot is the registry of section 4.3, to which the scheduler contract of section 6
  registers components; the component is added at the end of the robot's list.
\<close>

definition add_component :: "ref \<Rightarrow> ref \<Rightarrow> 'u world \<Rightarrow> 'u world" where
  "add_component rb c w = w\<lparr>registry := (registry w)(rb := registry w rb @ [c])\<rparr>"

text \<open>
  \<open>__init__\<close>: \<open>c\<close> is the object under construction.  The registration comes first, the
  two lists after it, as in the source.
\<close>

definition AdaptiveComponent_init ::
  "ref \<Rightarrow> ref \<Rightarrow> 'u component_class \<Rightarrow> 'u \<Rightarrow> 'u world \<Rightarrow> 'u world" where
  "AdaptiveComponent_init c rb k u w =
     (let w1 = add_component rb c w in
      w1\<lparr>components := (components w1)(c \<mapsto>
            \<lparr>robot = rb, tunables = [], tunable_pids = [], cls = k, user = u\<rparr>)\<rparr>)"

text \<open>
  The base class derives from \<open>ABC\<close> and marks \<open>execute\<close> with \<open>@abstractmethod\<close>.
  Python computes, when a subclass is created, the names that are still abstract in it:
  those of the base that the subclass does not override.
\<close>

definition overrides :: "'u component_class \<Rightarrow> string \<Rightarrow> bool" where
  "overrides k name =
     ((name = ''execute'' \<and> defines_execute k \<noteq> None) \<or>
      (name = ''publish_telemetry'' \<and> defines_publish_telemetry k \<noteq> None))"

definition abstractmethods :: "'u component_class \<Rightarrow> string list" where
  "abstractmethods k = filter (\<lambda>name. \<not> overrides k name) [''execute'']"

text \<open>
  The call \<open>k(robot)\<close>: Python refuses to create an instance of a class whose set of
  abstract methods is not empty, with a \<open>TypeError\<close> and before \<open>__init__\<close> runs; otherwise
  a new object is allocated and initialised.
\<close>

definition instantiate ::
  "'u component_class \<Rightarrow> ref \<Rightarrow> 'u \<Rightarrow> 'u world \<Rightarrow> error + ref \<times> 'u world" where
  "instantiate k rb u w =
     (if abstractmethods k \<noteq> [] then Inl TypeError
      else
        let c = next_ref w in
        Inr (c, AdaptiveComponent_init c rb k u (w\<lparr>next_ref := Suc c\<rparr>)))"

text \<open>\<open>tunable.update()\<close> on the object at \<open>r\<close>.\<close>

definition update_tunable :: "ref \<Rightarrow> 'u world \<Rightarrow> 'u world" where
  "update_tunable r w =
     (let w1 = w\<lparr>trace := trace w @ [Update r]\<rparr> in
      case tunable_values w r of
        None \<Rightarrow> w1
      | Some tv \<Rightarrow> w1\<lparr>tunable_values := (tunable_values w)(r \<mapsto>
            TunableValue_update (as_type_of (tv_default tv)) (store w) tv)\<rparr>)"

text \<open>\<open>tunable_pid.update_from_tunables()\<close> on the object at \<open>r\<close>.\<close>

definition update_tunable_pid :: "ref \<Rightarrow> 'u world \<Rightarrow> 'u world" where
  "update_tunable_pid r w =
     (let w1 = w\<lparr>trace := trace w @ [UpdateFromTunables r]\<rparr> in
      case pid_controllers w r of
        None \<Rightarrow> w1
      | Some pid \<Rightarrow> w1\<lparr>pid_controllers := (pid_controllers w)(r \<mapsto>
            update_from_tunables (store w) pid)\<rparr>)"

text \<open>
  The methods of a component.  The reference \<open>c\<close> names the object, \<open>self\<close> is its
  state.  A reference to no component does not occur in Python; the model leaves the world
  as it is then, and a factory fails.
\<close>

definition enter :: "ref \<Rightarrow> step \<Rightarrow> 'u world \<Rightarrow> 'u world" where
  "enter c s w = w\<lparr>trace := trace w @ [Step c s]\<rparr>"

definition update_tunable_constants :: "ref \<Rightarrow> 'u world \<Rightarrow> 'u world" where
  "update_tunable_constants c w =
     (case components w c of
        None \<Rightarrow> w
      | Some self \<Rightarrow> fold update_tunable (tunables self) (enter c UpdateTunableConstants w))"

definition update_tunable_pids :: "ref \<Rightarrow> 'u world \<Rightarrow> 'u world" where
  "update_tunable_pids c w =
     (case components w c of
        None \<Rightarrow> w
      | Some self \<Rightarrow> fold update_tunable_pid (tunable_pids self) (enter c UpdateTunablePIDs w))"

definition tunable ::
  "ref \<Rightarrow> string \<Rightarrow> TunableType \<Rightarrow> 'u world \<Rightarrow> error + ref \<times> 'u world" where
  "tunable c directory dflt w =
     (case components w c of
        None \<Rightarrow> Inl AttributeError
      | Some self \<Rightarrow>
          (case TunableValue_init directory dflt of
             Inl e \<Rightarrow> Inl e
           | Inr v \<Rightarrow>
               let r = next_ref w in
               Inr (r, w\<lparr>tunable_values := (tunable_values w)(r \<mapsto> v),
                         components := (components w)(c \<mapsto>
                            self\<lparr>tunables := tunables self @ [r]\<rparr>),
                         next_ref := Suc r\<rparr>)))"

definition tunablePID ::
  "ref \<Rightarrow> real \<Rightarrow> real \<Rightarrow> real \<Rightarrow> string \<Rightarrow> real \<Rightarrow> 'u world \<Rightarrow> error + ref \<times> 'u world" where
  "tunablePID c p i d directory per w =
     (case components w c of
        None \<Rightarrow> Inl AttributeError
      | Some self \<Rightarrow>
          (case TunableValue_init (directory @ ''/kp'') p of
             Inl e \<Rightarrow> Inl e
           | Inr tp \<Rightarrow>
          (case TunableValue_init (directory @ ''/ki'') i of
             Inl e \<Rightarrow> Inl e
           | Inr ti \<Rightarrow>
          (case TunableValue_init (directory @ ''/kd'') d of
             Inl e \<Rightarrow> Inl e
           | Inr td \<Rightarrow>
          (case TunablePIDController_init tp ti td per of
             Inl e \<Rightarrow> Inl e
           | Inr pid \<Rightarrow>
               let r = next_ref w in
               Inr (r, w\<lparr>pid_controllers := (pid_controllers w)(r \<mapsto> pid),
                         components := (components w)(c \<mapsto>
                            self\<lparr>tunable_pids := tunable_pids self @ [r]\<rparr>),
                         next_ref := Suc r\<rparr>))))))"

text \<open>The defaults of the parameters \<open>directory\<close> and \<open>period\<close> of \<open>tunablePID\<close>.\<close>

definition tunablePID_default ::
  "ref \<Rightarrow> real \<Rightarrow> real \<Rightarrow> real \<Rightarrow> 'u world \<Rightarrow> error + ref \<times> 'u world" where
  "tunablePID_default c p i d w = tunablePID c p i d ''Tunables/PIDController'' (2 / 100) w"

text \<open>
  \<open>publish_value\<close> hands the value to the telemetry publisher of the robot, the sink of
  section 6, which keeps what it is given.
\<close>

definition publish_value :: "ref \<Rightarrow> string \<Rightarrow> TunableType \<Rightarrow> 'u world \<Rightarrow> 'u world" where
  "publish_value c directory v w = w\<lparr>telemetry := telemetry w @ [(directory, v)]\<rparr>"

text \<open>
  \<open>publish_telemetry\<close>: the body of the base class is empty; an override publishes the
  values it computes.
\<close>

definition publish_telemetry :: "ref \<Rightarrow> 'u world \<Rightarrow> 'u world" where
  "publish_telemetry c w =
     (case components w c of
        None \<Rightarrow> w
      | Some self \<Rightarrow>
          (case defines_publish_telemetry (cls self) of
             None \<Rightarrow> enter c PublishTelemetry w
           | Some f \<Rightarrow>
               fold (\<lambda>(directory, v). publish_value c directory v) (f (user self))
                 (enter c PublishTelemetry w)))"

text \<open>\<open>execute\<close>: the body of the base class is empty; a subclass supplies its own.\<close>

definition execute :: "ref \<Rightarrow> 'u world \<Rightarrow> 'u world" where
  "execute c w =
     (case components w c of
        None \<Rightarrow> w
      | Some self \<Rightarrow>
          (case defines_execute (cls self) of
             None \<Rightarrow> enter c Execute w
           | Some f \<Rightarrow>
               (enter c Execute w)\<lparr>components := (components w)(c \<mapsto>
                   self\<lparr>user := f (user self)\<rparr>)\<rparr>))"

text \<open>Every operation that the class offers on a component, and its effect.\<close>

datatype operation =
    OpUpdateTunableConstants
  | OpUpdateTunablePIDs
  | OpTunable string TunableType
  | OpTunablePID real real real string real
  | OpPublishValue string TunableType
  | OpPublishTelemetry
  | OpExecute

fun perform :: "ref \<Rightarrow> operation \<Rightarrow> 'u world \<Rightarrow> error + 'u world" where
  "perform c OpUpdateTunableConstants w = Inr (update_tunable_constants c w)"
| "perform c OpUpdateTunablePIDs w = Inr (update_tunable_pids c w)"
| "perform c (OpTunable directory dflt) w = map_sum id snd (tunable c directory dflt w)"
| "perform c (OpTunablePID p i d directory per) w =
     map_sum id snd (tunablePID c p i d directory per w)"
| "perform c (OpPublishValue directory v) w = Inr (publish_value c directory v w)"
| "perform c OpPublishTelemetry w = Inr (publish_telemetry c w)"
| "perform c OpExecute w = Inr (execute c w)"

text \<open>
  Modelled from the spec: the scheduler of \<open>AdaptiveRobot\<close> is not among the sources.
  Section 2 and section 6 give its contract: each period it invokes, per registered
  component and in the order of registration, the four lifecycle steps in the order
  constants, PIDs, telemetry, execute.
\<close>

definition run_cycle :: "ref \<Rightarrow> 'u world \<Rightarrow> 'u world" where
  "run_cycle c w =
     execute c (publish_telemetry c (update_tunable_pids c (update_tunable_constants c w)))"

definition robot_periodic :: "ref \<Rightarrow> 'u world \<Rightarrow> 'u world" where
  "robot_periodic rb w = fold run_cycle (registry w rb) w"

text \<open>The events of one cycle of a component.\<close>

definition cycle_events :: "ref \<Rightarrow> 'u AdaptiveComponent \<Rightarrow> event list" where
  "cycle_events c self =
     Step c UpdateTunableConstants # map Update (tunables self) @
     Step c UpdateTunablePIDs # map UpdateFromTunables (tunable_pids self) @
     [Step c PublishTelemetry, Step c Execute]"

fun steps_of :: "event list \<Rightarrow> (ref \<times> step) list" where
  "steps_of [] = []"
| "steps_of (Step c s # es) = (c, s) # steps_of es"
| "steps_of (_ # es) = steps_of es"

text \<open>
  The scenario of section 8 of the specification: a component of a subclass that
  overrides \<open>execute\<close> only, registered with robot 7, that owns one tunable with the
  default \<open>5.0\<close> under the key \<open>K\<close>, while the store has no entry.
\<close>

definition scenario_class :: "unit component_class" where
  "scenario_class = \<lparr>defines_publish_telemetry = None, defines_execute = Some (\<lambda>u. u)\<rparr>"

definition scenario_world :: "unit world" where
  "scenario_world =
     \<lparr>store = Map.empty,
      tunable_values = [1 \<mapsto> \<lparr>tv_key = ''K'', tv_default = TFloat 5, tv_value = TFloat 5\<rparr>],
      pid_controllers = Map.empty,
      components = [0 \<mapsto> \<lparr>robot = 7, tunables = [1], tunable_pids = [],
                           cls = scenario_class, user = ()\<rparr>],
      registry = (\<lambda>_. [])(7 := [0]),
      next_ref = 2, telemetry = [], trace = []\<rparr>"

text \<open>
  The world after a sequence of operations, each on the component it names.  A call that
  raises leaves the world as it was.
\<close>

fun after :: "(ref \<times> operation) list \<Rightarrow> 'u world \<Rightarrow> 'u world" where
  "after [] w = w"
| "after ((c, op) # ops) w =
     after ops (case perform c op w of Inl _ \<Rightarrow> w | Inr w' \<Rightarrow> w')"

text \<open>
  Every component of the first world is a component of the second, and its two lists
  there begin with its lists in the first.
\<close>

definition extends :: "'u world \<Rightarrow> 'u world \<Rightarrow> bool" where
  "extends w w' \<longleftrightarrow>
     (\<forall>c self. components w c = Some self \<longrightarrow>
        (\<exists>self'. components w' c = Some self' \<and>
           prefix (tunables self) (tunables self') \<and>
           prefix (tunable_pids self) (tunable_pids self')))"

text \<open>A subclass that defines neither \<open>execute\<close> nor \<open>publish_telemetry\<close>.\<close>

definition abstract_class :: "unit component_class" where
  "abstract_class = \<lparr>defines_publish_telemetry = None, defines_execute = None\<rparr>"

section \<open>Bounds on \<open>\<pi>\<close>\<close>

text \<open>
  The numeric example of the velocity estimator needs \<open>\<pi>\<close> to five digits.  The bounds
  come from \<open>sin (\<pi>/6) = 1/2\<close>, the monotonicity of the sine on \<open>[-\<pi>/2, \<pi>/2]\<close> and
  its Taylor polynomial of degree 7 with the remainder of degree 9.
\<close>

lemma sin_poly9:
  "(\<Sum>m<9. sin_coeff m * x ^ m) = x - x^3/6 + x^5/120 - x^7/5040" for x :: real
  by (simp add: eval_nat_numeral sin_coeff_Suc cos_coeff_Suc)

lemma inverse_fact9: "inverse (fact 9) * y = y / (362880::real)"
  by (simp add: fact_numeral)

lemma sin_remainder9:
  "\<bar>sin x - (x - x^3/6 + x^5/120 - x^7/5040)\<bar> \<le> \<bar>x\<bar>^9 / 362880" for x :: real
  using Maclaurin_sin_bound [of x 9] unfolding sin_poly9 inverse_fact9 .

lemma abs_diff_bounds: "\<bar>s - p\<bar> \<le> r \<Longrightarrow> p - r \<le> s \<and> s \<le> p + (r::real)"
  by linarith

lemma sin_bounds9:
  "0 \<le> x \<Longrightarrow>
     x - x^3/6 + x^5/120 - x^7/5040 - x^9 / 362880 \<le> sin x \<and>
     sin x \<le> x - x^3/6 + x^5/120 - x^7/5040 + x^9 / 362880" for x :: real
  using abs_diff_bounds [OF sin_remainder9 [of x]] by simp

lemma sin_poly_above_half:
  "(1/2 :: real) < 1309/2500 - (1309/2500)^3/6 + (1309/2500)^5/120 - (1309/2500)^7/5040
      - (1309/2500)^9 / 362880"
  by (simp add: power_divide)

lemma sin_poly_below_half:
  "5235984/10000000 - (5235984/10000000)^3/6 + (5235984/10000000)^5/120
      - (5235984/10000000)^7/5040 + (5235984/10000000)^9 / 362880 < (1/2 :: real)"
  by (simp add: power_divide)

lemma pi_upper: "pi < 31416/10000"
proof -
  let ?a = "1309/2500 :: real"
  have "1/2 < ?a - ?a^3/6 + ?a^5/120 - ?a^7/5040 - ?a^9 / 362880"
    by (rule sin_poly_above_half)
  also have "\<dots> \<le> sin ?a"
    using sin_bounds9 [of ?a] by simp
  finally have "sin (pi/6) < sin ?a"
    by (simp add: sin_30)
  moreover have "?a \<le> pi/2" "- (pi/2) \<le> ?a" "- (pi/2) \<le> pi/6" "pi/6 \<le> pi/2"
    using pi_ge_two by simp_all
  ultimately have "pi/6 < ?a"
    using sin_mono_less_eq [of "pi/6" ?a] by simp
  then show ?thesis by linarith
qed

lemma pi_lower: "314159/100000 < pi"
proof -
  let ?a = "5235984/10000000 :: real"
  have "sin ?a \<le> ?a - ?a^3/6 + ?a^5/120 - ?a^7/5040 + ?a^9 / 362880"
    using sin_bounds9 [of ?a] by simp
  also have "\<dots> < 1/2"
    by (rule sin_poly_below_half)
  finally have "sin ?a < sin (pi/6)"
    by (simp add: sin_30)
  moreover have "?a \<le> pi/2" "- (pi/2) \<le> ?a" "- (pi/2) \<le> pi/6" "pi/6 \<le> pi/2"
    using pi_ge_two by simp_all
  ultimately have "?a < pi/6"
    using sin_mono_less_eq [of ?a "pi/6"] by simp
  then show ?thesis by linarith
qed

section \<open>Properties of the velocity estimator\<close>

lemma get_position_None: "get_position rotations None = Inr (rotations * (2 * pi))"
  by (simp add: get_position_def rotations_to_radians_def)

lemma get_velocity_step:
  "get_velocity now rotations e = Inr (velocity_step now (rotations * (2 * pi)) e)"
  by (simp add: get_velocity_def get_position_None)

lemma velocity_step_guard: "now \<le> prev_time e \<Longrightarrow> velocity_step now angle e = (0, e)"
  by (simp add: velocity_step_def)

lemma velocity_step_advance:
  "prev_time e < now \<Longrightarrow>
     velocity_step now angle e =
       (unwrap (angle - prev_angle e) / (now - prev_time e),
        \<lparr>prev_time = now, prev_angle = angle\<rparr>)"
  by (simp add: velocity_step_def Let_def)

lemma example_angle: "1 / (4 * pi) * (2 * pi) = 1 / 2"
  by simp

lemma example_velocity:
  "get_velocity (2/100) (1 / (4 * pi)) \<lparr>prev_time = 0, prev_angle = 6\<rparr> =
     Inr (100 * pi - 275, \<lparr>prev_time = 2/100, prev_angle = 1/2\<rparr>)"
proof -
  have "\<not> (1/2 - 6 > pi)" and "(1/2 - 6 :: real) < - pi"
    using pi_gt_zero pi_less_4 by linarith+
  then have "unwrap (1/2 - 6) = 1/2 - 6 + 2 * pi"
    unfolding unwrap_def by (simp only: if_True if_False)
  then show ?thesis
    unfolding get_velocity_step example_angle by (simp add: velocity_step_advance)
qed

text \<open>
  Claim C1, as amended.  A call of \<open>get_velocity\<close> at the timestamp \<open>now\<close> with
  \<open>now - prev_time > 0\<close> and the current angle \<open>a\<close> (the reading in radians) returns
  \<open>d / (now - prev_time)\<close>, where \<open>d\<close> is \<open>a - prev_angle\<close> less \<open>2\<pi>\<close> if that
  difference is above \<open>\<pi>\<close> and plus \<open>2\<pi>\<close> if it is below \<open>-\<pi>\<close>; afterwards the rolling
  state is \<open>(now, a)\<close>.  For \<open>prev_angle = 6.0\<close>, \<open>a = 0.5\<close>, \<open>prev_time = 0.0\<close> and
  \<open>now = 0.02\<close> the velocity is \<open>100\<pi> - 275\<close>, which is \<open>39.16\<close> rad/s to two decimals
  (between \<open>39.159\<close> and \<open>39.16\<close>).
\<close>

theorem get_velocity_unwrapped_rate:
  assumes "now - prev_time e > 0"
    and "a = rotations * (2 * pi)"
    and "d = a - prev_angle e"
  shows "get_velocity now rotations e =
           Inr ((if d > pi then d - 2 * pi else if d < - pi then d + 2 * pi else d)
                  / (now - prev_time e),
                \<lparr>prev_time = now, prev_angle = a\<rparr>) \<and>
         (\<exists>v. get_velocity (2/100) (1 / (4 * pi)) \<lparr>prev_time = 0, prev_angle = 6\<rparr> =
                 Inr (v, \<lparr>prev_time = 2/100, prev_angle = 1/2\<rparr>) \<and>
              39159/1000 < v \<and> v < 3916/100 \<and> \<bar>v - 3916/100\<bar> \<le> 1/200)"
proof
  from assms(1) have "prev_time e < now" by simp
  then show "get_velocity now rotations e =
           Inr ((if d > pi then d - 2 * pi else if d < - pi then d + 2 * pi else d)
                  / (now - prev_time e),
                \<lparr>prev_time = now, prev_angle = a\<rparr>)"
    unfolding get_velocity_step assms(2,3)
    by (simp add: velocity_step_advance unwrap_def)
next
  have "39159/1000 < 100 * pi - 275" and "100 * pi - 275 < 3916/100"
    using pi_lower pi_upper by linarith+
  moreover from this have "\<bar>(100 * pi - 275) - 3916/100\<bar> \<le> 1/200"
    by linarith
  ultimately show "\<exists>v. get_velocity (2/100) (1 / (4 * pi)) \<lparr>prev_time = 0, prev_angle = 6\<rparr> =
                 Inr (v, \<lparr>prev_time = 2/100, prev_angle = 1/2\<rparr>) \<and>
              39159/1000 < v \<and> v < 3916/100 \<and> \<bar>v - 3916/100\<bar> \<le> 1/200"
    using example_velocity by blast
qed

theorem get_velocity_unwrapped_rate_witness:
  "(2/100 :: real) - prev_time \<lparr>prev_time = 0, prev_angle = 6\<rparr> > 0 \<and>
   get_velocity (2/100) (1 / (4 * pi)) \<lparr>prev_time = 0, prev_angle = 6\<rparr> =
     Inr ((1/2 - 6 + 2 * pi) / (2/100), \<lparr>prev_time = 2/100, prev_angle = 1/2\<rparr>)"
proof -
  have "\<not> (1/2 - 6 > pi)" and "(1/2 - 6 :: real) < - pi"
    using pi_gt_zero pi_less_4 by linarith+
  then show ?thesis
    using get_velocity_unwrapped_rate
      [where e = "\<lparr>prev_time = 0, prev_angle = 6\<rparr>" and now = "2/100" and a = "1/2"
        and rotations = "1 / (4 * pi)" and d = "1/2 - 6"]
    by simp
qed

text \<open>
  Claim C1 as the specification states it gives the velocity of the example as about
  \<open>39.17\<close> rad/s.  The call returns \<open>100\<pi> - 275\<close>, which is more than \<open>0.005\<close> away
  from \<open>39.17\<close>: the figure is not the value to the two decimals it is given with.
\<close>

theorem get_velocity_example_counterexample:
  "get_velocity (2/100) (1 / (4 * pi)) \<lparr>prev_time = 0, prev_angle = 6\<rparr> =
     Inr (100 * pi - 275, \<lparr>prev_time = 2/100, prev_angle = 1/2\<rparr>) \<and>
   \<not> \<bar>(100 * pi - 275) - 3917/100\<bar> \<le> 1/200"
proof -
  have "100 * pi - 275 < 3916/100"
    using pi_upper by linarith
  then have "\<not> \<bar>(100 * pi - 275) - 3917/100\<bar> \<le> 1/200"
    by linarith
  then show ?thesis
    using example_velocity by simp
qed

text \<open>
  Claim C2.  When the current timestamp is not later than \<open>prev_time\<close> (\<open>dt \<le> 0\<close>),
  \<open>get_velocity\<close> returns exactly \<open>0.0\<close>, whatever the current reading and the previous
  angle are.
\<close>

theorem get_velocity_zero_when_clock_stalls:
  "now \<le> prev_time e \<Longrightarrow> map_sum id fst (get_velocity now rotations e) = Inr 0"
  unfolding get_velocity_step by (simp add: velocity_step_guard)

theorem get_velocity_zero_when_clock_stalls_witness:
  "(1::real) \<le> prev_time \<lparr>prev_time = 3, prev_angle = 6\<rparr> \<and>
   map_sum id fst (get_velocity 1 (1/4) \<lparr>prev_time = 3, prev_angle = 6\<rparr>) = Inr 0"
  using get_velocity_zero_when_clock_stalls
      [where now = 1 and e = "\<lparr>prev_time = 3, prev_angle = 6\<rparr>" and rotations = "1/4"]
  by simp

text \<open>
  Claim C3.  The unwrap step changes no \<open>delta\<close> in \<open>[-\<pi>, \<pi>]\<close>: such a difference of
  angles goes through \<open>get_velocity\<close> as it is, and \<open>\<pi>\<close> and \<open>-\<pi>\<close> themselves are left
  unadjusted.
\<close>

theorem unwrap_noop_in_range:
  assumes "- pi \<le> delta" and "delta \<le> pi"
  shows "unwrap delta = delta \<and>
         (prev_time e < now \<and> rotations * (2 * pi) - prev_angle e = delta \<longrightarrow>
            map_sum id fst (get_velocity now rotations e) = Inr (delta / (now - prev_time e))) \<and>
         unwrap pi = pi \<and> unwrap (- pi) = - pi"
proof -
  have u: "unwrap delta = delta"
    using assms by (simp add: unwrap_def)
  have "unwrap pi = pi" and "unwrap (- pi) = - pi"
    by (simp_all add: unwrap_def)
  moreover have "prev_time e < now \<and> rotations * (2 * pi) - prev_angle e = delta \<longrightarrow>
            map_sum id fst (get_velocity now rotations e) = Inr (delta / (now - prev_time e))"
    unfolding get_velocity_step using u by (auto simp add: velocity_step_advance)
  ultimately show ?thesis
    using u by simp
qed

theorem unwrap_noop_in_range_witness:
  "- pi \<le> pi \<and> pi \<le> pi \<and> unwrap pi = pi \<and>
   prev_time \<lparr>prev_time = 0, prev_angle = 0\<rparr> < 1 \<and>
   (1/2) * (2 * pi) - prev_angle \<lparr>prev_time = 0, prev_angle = 0\<rparr> = pi \<and>
   map_sum id fst (get_velocity 1 (1/2) \<lparr>prev_time = 0, prev_angle = 0\<rparr>) = Inr pi"
  using unwrap_noop_in_range
      [where delta = pi and e = "\<lparr>prev_time = 0, prev_angle = 0\<rparr>" and now = 1 and rotations = "1/2"]
  by simp

text \<open>
  Claim C4.  On the guard path of \<open>get_velocity\<close> (current timestamp not later than
  \<open>prev_time\<close>) the fields \<open>prev_time\<close> and \<open>prev_angle\<close> stay exactly as they were; a
  call with \<open>dt > 0\<close> sets them to the current timestamp and angle, and only such a call
  changes the encoder.
\<close>

theorem get_velocity_guard_keeps_state:
  "(now \<le> prev_time e \<longrightarrow> map_sum id snd (get_velocity now rotations e) = Inr e) \<and>
   (prev_time e < now \<longrightarrow>
      map_sum id snd (get_velocity now rotations e) =
        Inr \<lparr>prev_time = now, prev_angle = rotations * (2 * pi)\<rparr>) \<and>
   (map_sum id snd (get_velocity now rotations e) \<noteq> Inr e \<longrightarrow> now - prev_time e > 0)"
  unfolding get_velocity_step
  by (cases "now \<le> prev_time e") (simp_all add: velocity_step_guard velocity_step_advance)

theorem get_velocity_guard_keeps_state_witness:
  "(1::real) \<le> prev_time \<lparr>prev_time = 3, prev_angle = 6\<rparr> \<and>
   map_sum id snd (get_velocity 1 (1/4) \<lparr>prev_time = 3, prev_angle = 6\<rparr>) =
     Inr \<lparr>prev_time = 3, prev_angle = 6\<rparr> \<and>
   prev_time \<lparr>prev_time = 3, prev_angle = 6\<rparr> < 4 \<and>
   map_sum id snd (get_velocity 4 (1/4) \<lparr>prev_time = 3, prev_angle = 6\<rparr>) =
     Inr \<lparr>prev_time = 4, prev_angle = (1/4) * (2 * pi)\<rparr> \<and>
   map_sum id snd (get_velocity 4 (1/4) \<lparr>prev_time = 3, prev_angle = 6\<rparr>) \<noteq>
     Inr \<lparr>prev_time = 3, prev_angle = 6\<rparr> \<and>
   (4::real) - prev_time \<lparr>prev_time = 3, prev_angle = 6\<rparr> > 0"
  using get_velocity_guard_keeps_state
      [where now = 1 and e = "\<lparr>prev_time = 3, prev_angle = 6\<rparr>" and rotations = "1/4"]
    get_velocity_guard_keeps_state
      [where now = 4 and e = "\<lparr>prev_time = 3, prev_angle = 6\<rparr>" and rotations = "1/4"]
  by simp

text \<open>
  Claim C10.  \<open>get_velocity\<close> takes the current angle from \<open>get_position\<close> without a gear
  ratio, and \<open>__init__\<close> initialises \<open>prev_angle\<close> the same way, so the velocity is
  computed from the angle of the sensor shaft, \<open>rotations * 2\<pi>\<close>, and from nothing
  else, whereas \<open>get_position\<close> with a gear ratio \<open>g\<close> divides the angle by \<open>g\<close>.
\<close>

theorem get_velocity_ignores_gear_ratio:
  "get_velocity now rotations e =
     (case get_position rotations None of
        Inl err \<Rightarrow> Inl err
      | Inr angle \<Rightarrow> Inr (velocity_step now angle e)) \<and>
   get_position rotations None = Inr (rotations * (2 * pi)) \<and>
   get_velocity now rotations e = Inr (velocity_step now (rotations * (2 * pi)) e) \<and>
   encoder_init now rotations = Inr \<lparr>prev_time = now, prev_angle = rotations * (2 * pi)\<rparr> \<and>
   (g \<noteq> 0 \<longrightarrow> get_position rotations (Some g) = Inr (rotations * (2 * pi) / g))"
  by (simp add: get_velocity_def encoder_init_def get_position_def rotations_to_radians_def)

theorem get_velocity_ignores_gear_ratio_witness:
  "(2::real) \<noteq> 0 \<and> get_position (1/2) (Some 2) = Inr (pi / 2) \<and>
   get_velocity 1 (1/2) \<lparr>prev_time = 0, prev_angle = 0\<rparr> =
     Inr (pi, \<lparr>prev_time = 1, prev_angle = pi\<rparr>)"
  using get_velocity_ignores_gear_ratio
      [where now = 1 and rotations = "1/2" and e = "\<lparr>prev_time = 0, prev_angle = 0\<rparr>" and g = 2]
  by (simp add: velocity_step_advance unwrap_def)

section \<open>Properties of the component lifecycle\<close>

lemma update_tunable_frame [simp]:
  "trace (update_tunable r w) = trace w @ [Update r]"
  "components (update_tunable r w) = components w"
  "registry (update_tunable r w) = registry w"
  "store (update_tunable r w) = store w"
  "pid_controllers (update_tunable r w) = pid_controllers w"
  "next_ref (update_tunable r w) = next_ref w"
  "telemetry (update_tunable r w) = telemetry w"
  by (simp_all add: update_tunable_def Let_def split: option.splits)

lemma update_tunable_pid_frame [simp]:
  "trace (update_tunable_pid r w) = trace w @ [UpdateFromTunables r]"
  "components (update_tunable_pid r w) = components w"
  "registry (update_tunable_pid r w) = registry w"
  "store (update_tunable_pid r w) = store w"
  "tunable_values (update_tunable_pid r w) = tunable_values w"
  "next_ref (update_tunable_pid r w) = next_ref w"
  "telemetry (update_tunable_pid r w) = telemetry w"
  by (simp_all add: update_tunable_pid_def Let_def split: option.splits)

lemma fold_update_tunable_frame [simp]:
  "trace (fold update_tunable rs w) = trace w @ map Update rs"
  "components (fold update_tunable rs w) = components w"
  "registry (fold update_tunable rs w) = registry w"
  "store (fold update_tunable rs w) = store w"
  "pid_controllers (fold update_tunable rs w) = pid_controllers w"
  "next_ref (fold update_tunable rs w) = next_ref w"
  "telemetry (fold update_tunable rs w) = telemetry w"
  by (induction rs arbitrary: w; simp)+

lemma fold_update_tunable_pid_frame [simp]:
  "trace (fold update_tunable_pid rs w) = trace w @ map UpdateFromTunables rs"
  "components (fold update_tunable_pid rs w) = components w"
  "registry (fold update_tunable_pid rs w) = registry w"
  "store (fold update_tunable_pid rs w) = store w"
  "tunable_values (fold update_tunable_pid rs w) = tunable_values w"
  "next_ref (fold update_tunable_pid rs w) = next_ref w"
  "telemetry (fold update_tunable_pid rs w) = telemetry w"
  by (induction rs arbitrary: w; simp)+

lemma enter_frame [simp]:
  "trace (enter c s w) = trace w @ [Step c s]"
  "components (enter c s w) = components w"
  "registry (enter c s w) = registry w"
  "store (enter c s w) = store w"
  "tunable_values (enter c s w) = tunable_values w"
  "pid_controllers (enter c s w) = pid_controllers w"
  "next_ref (enter c s w) = next_ref w"
  "telemetry (enter c s w) = telemetry w"
  by (simp_all add: enter_def)

lemma fold_publish_value_frame [simp]:
  "trace (fold (\<lambda>(directory, v). publish_value c directory v) vs w) = trace w"
  "components (fold (\<lambda>(directory, v). publish_value c directory v) vs w) = components w"
  "registry (fold (\<lambda>(directory, v). publish_value c directory v) vs w) = registry w"
  "store (fold (\<lambda>(directory, v). publish_value c directory v) vs w) = store w"
  "tunable_values (fold (\<lambda>(directory, v). publish_value c directory v) vs w) = tunable_values w"
  "pid_controllers (fold (\<lambda>(directory, v). publish_value c directory v) vs w) = pid_controllers w"
  "next_ref (fold (\<lambda>(directory, v). publish_value c directory v) vs w) = next_ref w"
  "telemetry (fold (\<lambda>(directory, v). publish_value c directory v) vs w) = telemetry w @ vs"
  by (induction vs arbitrary: w; simp add: publish_value_def split: prod.splits)+

lemma update_tunable_constants_some:
  "components w c = Some self \<Longrightarrow>
     trace (update_tunable_constants c w) =
       trace w @ Step c UpdateTunableConstants # map Update (tunables self) \<and>
     components (update_tunable_constants c w) = components w \<and>
     registry (update_tunable_constants c w) = registry w \<and>
     store (update_tunable_constants c w) = store w"
  by (simp add: update_tunable_constants_def)

lemma update_tunable_pids_some:
  "components w c = Some self \<Longrightarrow>
     trace (update_tunable_pids c w) =
       trace w @ Step c UpdateTunablePIDs # map UpdateFromTunables (tunable_pids self) \<and>
     components (update_tunable_pids c w) = components w \<and>
     registry (update_tunable_pids c w) = registry w \<and>
     store (update_tunable_pids c w) = store w"
  by (simp add: update_tunable_pids_def)

lemma publish_telemetry_some:
  "components w c = Some self \<Longrightarrow>
     trace (publish_telemetry c w) = trace w @ [Step c PublishTelemetry] \<and>
     components (publish_telemetry c w) = components w \<and>
     registry (publish_telemetry c w) = registry w \<and>
     store (publish_telemetry c w) = store w"
  by (simp add: publish_telemetry_def split: option.splits)

lemma execute_some:
  "components w c = Some self \<Longrightarrow>
     trace (execute c w) = trace w @ [Step c Execute] \<and>
     components (execute c w) =
       (components w)(c \<mapsto> self\<lparr>user :=
          (case defines_execute (cls self) of None \<Rightarrow> user self | Some f \<Rightarrow> f (user self))\<rparr>) \<and>
     registry (execute c w) = registry w \<and>
     store (execute c w) = store w"
  by (auto simp add: execute_def split: option.splits)

lemma run_cycle_some:
  "components w c = Some self \<Longrightarrow>
     trace (run_cycle c w) = trace w @ cycle_events c self \<and>
     components (run_cycle c w) =
       (components w)(c \<mapsto> self\<lparr>user :=
          (case defines_execute (cls self) of None \<Rightarrow> user self | Some f \<Rightarrow> f (user self))\<rparr>) \<and>
     registry (run_cycle c w) = registry w \<and>
     store (run_cycle c w) = store w"
  unfolding run_cycle_def
  by (simp add: update_tunable_constants_some update_tunable_pids_some publish_telemetry_some
      execute_some cycle_events_def)



lemma TunableValue_update_idem:
  "TunableValue_update (as_type_of (tv_default (TunableValue_update (as_type_of (tv_default tv)) st tv))) st
     (TunableValue_update (as_type_of (tv_default tv)) st tv) =
   TunableValue_update (as_type_of (tv_default tv)) st tv"
  by (simp add: TunableValue_update_def split: option.splits)

lemma update_tunable_values:
  "tunable_values (update_tunable r w) r' =
     (if r' = r
      then map_option (\<lambda>tv. TunableValue_update (as_type_of (tv_default tv)) (store w) tv)
             (tunable_values w r')
      else tunable_values w r')"
  by (simp add: update_tunable_def Let_def split: option.splits)

lemma fold_update_tunable_values:
  "tunable_values (fold update_tunable rs w) r =
     (if r \<in> set rs
      then map_option (\<lambda>tv. TunableValue_update (as_type_of (tv_default tv)) (store w) tv)
             (tunable_values w r)
      else tunable_values w r)"
proof (induction rs arbitrary: w)
  case Nil
  then show ?case by simp
next
  case (Cons a rs)
  show ?case
    by (cases "tunable_values w r")
      (auto simp add: Cons.IH update_tunable_values TunableValue_update_idem)
qed

lemma update_from_tunables_idem:
  "update_from_tunables st (update_from_tunables st pid) = update_from_tunables st pid"
  by (simp add: update_from_tunables_def TunableValue_update_def Let_def split: option.splits)

lemma update_tunable_pid_values:
  "pid_controllers (update_tunable_pid r w) r' =
     (if r' = r then map_option (update_from_tunables (store w)) (pid_controllers w r')
      else pid_controllers w r')"
  by (simp add: update_tunable_pid_def Let_def split: option.splits)

lemma fold_update_tunable_pid_values:
  "pid_controllers (fold update_tunable_pid rs w) r =
     (if r \<in> set rs then map_option (update_from_tunables (store w)) (pid_controllers w r)
      else pid_controllers w r)"
proof (induction rs arbitrary: w)
  case Nil
  then show ?case by simp
next
  case (Cons a rs)
  show ?case
    by (cases "pid_controllers w r")
      (auto simp add: Cons.IH update_tunable_pid_values update_from_tunables_idem)
qed

lemma scenario_world_built:
  "\<exists>w. instantiate scenario_class 7 () empty_world = Inr (0, w) \<and>
       tunable 0 ''K'' (TFloat 5) w = Inr (1, scenario_world)"
  by (simp add: instantiate_def abstractmethods_def overrides_def scenario_class_def
      empty_world_def AdaptiveComponent_init_def add_component_def Let_def tunable_def
      TunableValue_init_def scenario_world_def)

lemma wf_scenario_world: "wf_world scenario_world"
  by (auto simp add: wf_world_def scenario_world_def split: if_splits)

lemma wf_empty_world: "wf_world empty_world"
  by (simp add: wf_world_def empty_world_def)

lemma run_cycle_tunable_values:
  "components w c = Some self \<Longrightarrow>
     tunable_values (run_cycle c w) r =
       (if r \<in> set (tunables self)
        then map_option (\<lambda>tv. TunableValue_update (as_type_of (tv_default tv)) (store w) tv)
               (tunable_values w r)
        else tunable_values w r)"
  unfolding run_cycle_def
  by (simp add: execute_def publish_telemetry_def update_tunable_pids_def
      update_tunable_constants_def fold_update_tunable_values split: option.splits)

lemma run_cycle_pid_controllers:
  "components w c = Some self \<Longrightarrow>
     pid_controllers (run_cycle c w) r =
       (if r \<in> set (tunable_pids self)
        then map_option (update_from_tunables (store w)) (pid_controllers w r)
        else pid_controllers w r)"
  unfolding run_cycle_def
  by (simp add: execute_def publish_telemetry_def update_tunable_pids_def
      update_tunable_constants_def fold_update_tunable_pid_values split: option.splits)

lemma cycle_events_user [simp]: "cycle_events c (self\<lparr>user := u\<rparr>) = cycle_events c self"
  by (simp add: cycle_events_def)

lemma steps_of_append [simp]: "steps_of (es @ fs) = steps_of es @ steps_of fs"
  by (induction es rule: steps_of.induct) simp_all

lemma steps_of_updates [simp]:
  "steps_of (map Update rs) = []" "steps_of (map UpdateFromTunables rs) = []"
  by (induction rs) simp_all

lemma steps_of_cycle_events:
  "steps_of (cycle_events c self) =
     [(c, UpdateTunableConstants), (c, UpdateTunablePIDs), (c, PublishTelemetry), (c, Execute)]"
  by (simp add: cycle_events_def)

lemma fold_run_cycle_trace:
  "\<forall>c\<in>set cs. components w c \<noteq> None \<Longrightarrow>
     trace (fold run_cycle cs w) =
       trace w @ concat (map (\<lambda>c. cycle_events c (the (components w c))) cs)"
proof (induction cs arbitrary: w)
  case Nil
  then show ?case by simp
next
  case (Cons a cs)
  then obtain self where a: "components w a = Some self"
    by auto
  let ?w = "run_cycle a w"
  have comps: "components ?w =
       (components w)(a \<mapsto> self\<lparr>user :=
          (case defines_execute (cls self) of None \<Rightarrow> user self | Some f \<Rightarrow> f (user self))\<rparr>)"
    using run_cycle_some [OF a] by simp
  have ev: "cycle_events c (the (components ?w c)) = cycle_events c (the (components w c))" for c
    by (simp add: comps a)
  have "\<forall>c\<in>set cs. components ?w c \<noteq> None"
    using Cons.prems by (simp add: comps)
  then have "trace (fold run_cycle cs ?w) =
       trace ?w @ concat (map (\<lambda>c. cycle_events c (the (components ?w c))) cs)"
    by (rule Cons.IH)
  then have "trace (fold run_cycle cs ?w) =
       trace ?w @ concat (map (\<lambda>c. cycle_events c (the (components w c))) cs)"
    by (simp only: ev)
  moreover have "trace ?w = trace w @ cycle_events a self"
    using run_cycle_some [OF a] by simp
  ultimately show ?case
    by (simp add: a)
qed

lemma steps_of_concat_cycles:
  "steps_of (concat (map (\<lambda>c. cycle_events c (f c)) cs)) =
     concat (map (\<lambda>c. [(c, UpdateTunableConstants), (c, UpdateTunablePIDs),
                         (c, PublishTelemetry), (c, Execute)]) cs)"
  by (induction cs) (simp_all add: steps_of_cycle_events)

lemma robot_periodic_steps:
  "\<forall>c\<in>set (registry w rb). components w c \<noteq> None \<Longrightarrow>
     \<exists>es. trace (robot_periodic rb w) = trace w @ es \<and>
       steps_of es =
         concat (map (\<lambda>c. [(c, UpdateTunableConstants), (c, UpdateTunablePIDs),
                             (c, PublishTelemetry), (c, Execute)]) (registry w rb))"
  unfolding robot_periodic_def
  using fold_run_cycle_trace [of "registry w rb" w] steps_of_concat_cycles by simp

lemma tunable_success:
  "components w c = Some self \<Longrightarrow> tunable c directory dflt w = Inr (r, w') \<Longrightarrow>
     r = next_ref w \<and> directory \<noteq> [] \<and>
     w' = w\<lparr>tunable_values := (tunable_values w)(r \<mapsto>
               \<lparr>tv_key = directory, tv_default = dflt, tv_value = dflt\<rparr>),
             components := (components w)(c \<mapsto> self\<lparr>tunables := tunables self @ [r]\<rparr>),
             next_ref := Suc r\<rparr>"
  by (auto simp add: tunable_def TunableValue_init_def Let_def split: if_splits)

lemma tunable_total:
  "components w c = Some self \<Longrightarrow>
     tunable c directory dflt w =
       (if directory = [] then Inl ConfigurationError
        else Inr (next_ref w,
          w\<lparr>tunable_values := (tunable_values w)(next_ref w \<mapsto>
               \<lparr>tv_key = directory, tv_default = dflt, tv_value = dflt\<rparr>),
             components := (components w)(c \<mapsto> self\<lparr>tunables := tunables self @ [next_ref w]\<rparr>),
             next_ref := Suc (next_ref w)\<rparr>))"
  by (simp add: tunable_def TunableValue_init_def Let_def)

lemma tunablePID_total:
  "components w c = Some self \<Longrightarrow>
     tunablePID c p i d directory per w =
       (case TunablePIDController_init
               \<lparr>tv_key = directory @ ''/kp'', tv_default = p, tv_value = p\<rparr>
               \<lparr>tv_key = directory @ ''/ki'', tv_default = i, tv_value = i\<rparr>
               \<lparr>tv_key = directory @ ''/kd'', tv_default = d, tv_value = d\<rparr> per of
          Inl e \<Rightarrow> Inl e
        | Inr pid \<Rightarrow> Inr (next_ref w,
            w\<lparr>pid_controllers := (pid_controllers w)(next_ref w \<mapsto> pid),
               components := (components w)(c \<mapsto>
                  self\<lparr>tunable_pids := tunable_pids self @ [next_ref w]\<rparr>),
               next_ref := Suc (next_ref w)\<rparr>))"
  by (simp add: tunablePID_def TunableValue_init_def Let_def split: sum.splits)

lemma TunablePIDController_init_cases:
  "TunablePIDController_init p i d per =
     (if per \<le> 0 \<or> tv_default p < 0 \<or> tv_default i < 0 \<or> tv_default d < 0
      then Inl ConfigurationError
      else Inr \<lparr>kp = p, ki = i, kd = d, period = per,
                coefficients = (tv_value p, tv_value i, tv_value d)\<rparr>)"
  by (simp add: TunablePIDController_init_def)

lemma update_tunable_constants_components [simp]:
  "components (update_tunable_constants c w) = components w"
  by (simp add: update_tunable_constants_def split: option.splits)

lemma update_tunable_pids_components [simp]:
  "components (update_tunable_pids c w) = components w"
  by (simp add: update_tunable_pids_def split: option.splits)

lemma publish_telemetry_components [simp]:
  "components (publish_telemetry c w) = components w"
  by (simp add: publish_telemetry_def split: option.splits)

lemma publish_value_components [simp]:
  "components (publish_value c directory v w) = components w"
  by (simp add: publish_value_def)

lemma extends_refl: "extends w w"
  by (simp add: extends_def)

lemma extends_trans: "extends w w' \<Longrightarrow> extends w' w'' \<Longrightarrow> extends w w''"
  unfolding extends_def by (meson prefix_order.order_trans)

lemma extends_same_components: "components w' = components w \<Longrightarrow> extends w w'"
  by (simp add: extends_def)

lemma execute_extends: "extends w (execute c w)"
  by (auto simp add: extends_def execute_def split: option.splits)

lemma tunable_extends: "tunable c directory dflt w = Inr (r, w') \<Longrightarrow> extends w w'"
  by (auto simp add: extends_def tunable_def TunableValue_init_def Let_def
      split: option.splits if_splits)

lemma tunablePID_extends: "tunablePID c p i d directory per w = Inr (r, w') \<Longrightarrow> extends w w'"
  by (auto simp add: extends_def tunablePID_def TunableValue_init_def Let_def
      TunablePIDController_init_def split: option.splits if_splits)

lemma perform_extends: "perform c op w = Inr w' \<Longrightarrow> extends w w'"
proof (cases op)
  case (OpTunable directory dflt)
  assume "perform c op w = Inr w'"
  then obtain r where "tunable c directory dflt w = Inr (r, w')"
    unfolding OpTunable by (cases "tunable c directory dflt w") auto
  then show ?thesis by (rule tunable_extends)
next
  case (OpTunablePID p i d directory per)
  assume "perform c op w = Inr w'"
  then obtain r where "tunablePID c p i d directory per w = Inr (r, w')"
    unfolding OpTunablePID by (cases "tunablePID c p i d directory per w") auto
  then show ?thesis by (rule tunablePID_extends)
qed (auto simp add: extends_same_components execute_extends)

lemma after_extends: "extends w (after ops w)"
proof (induction ops arbitrary: w)
  case Nil
  show ?case by (simp add: extends_refl)
next
  case (Cons a ops)
  obtain c op where a: "a = (c, op)" by (cases a)
  show ?case
  proof (cases "perform c op w")
    case (Inl e)
    then show ?thesis using Cons.IH [of w] by (simp add: a)
  next
    case (Inr w')
    then have "extends w w'" by (rule perform_extends)
    then show ?thesis using Cons.IH [of w'] Inr by (auto simp add: a intro: extends_trans)
  qed
qed


text \<open>
  Claim C5.  For a component, \<open>update_tunable_constants\<close> calls \<open>update\<close> on every owned
  tunable in the order of the list, and \<open>update_tunable_pids\<close> calls
  \<open>update_from_tunables\<close> on every owned controller in the order of the list.  One cycle
  runs the four lifecycle steps in the order constants, PIDs, telemetry, execute, none
  skipped and none twice, and leaves every owned tunable and controller resolved against
  the store; a pass of the scheduler does this for every registered component in turn.
\<close>

theorem lifecycle_fixed_order:
  assumes "components w c = Some self"
  shows "trace (update_tunable_constants c w) =
           trace w @ Step c UpdateTunableConstants # map Update (tunables self) \<and>
         trace (update_tunable_pids c w) =
           trace w @ Step c UpdateTunablePIDs # map UpdateFromTunables (tunable_pids self) \<and>
         trace (run_cycle c w) =
           trace w @
           Step c UpdateTunableConstants # map Update (tunables self) @
           Step c UpdateTunablePIDs # map UpdateFromTunables (tunable_pids self) @
           [Step c PublishTelemetry, Step c Execute] \<and>
         steps_of (drop (length (trace w)) (trace (run_cycle c w))) =
           [(c, UpdateTunableConstants), (c, UpdateTunablePIDs),
            (c, PublishTelemetry), (c, Execute)] \<and>
         (\<forall>r\<in>set (tunables self).
            tunable_values (run_cycle c w) r =
              map_option (\<lambda>tv. TunableValue_update (as_type_of (tv_default tv)) (store w) tv)
                (tunable_values w r)) \<and>
         (\<forall>r\<in>set (tunable_pids self).
            pid_controllers (run_cycle c w) r =
              map_option (update_from_tunables (store w)) (pid_controllers w r)) \<and>
         ((\<forall>c'\<in>set (registry w rb). components w c' \<noteq> None) \<longrightarrow>
            (\<exists>es. trace (robot_periodic rb w) = trace w @ es \<and>
               steps_of es =
                 concat (map (\<lambda>c'. [(c', UpdateTunableConstants), (c', UpdateTunablePIDs),
                                      (c', PublishTelemetry), (c', Execute)])
                   (registry w rb))))"
proof -
  have t: "trace (run_cycle c w) = trace w @ cycle_events c self"
    using run_cycle_some [OF assms] by simp
  have "steps_of (drop (length (trace w)) (trace (run_cycle c w))) =
           [(c, UpdateTunableConstants), (c, UpdateTunablePIDs),
            (c, PublishTelemetry), (c, Execute)]"
    unfolding t by (simp add: steps_of_cycle_events)
  moreover have "trace (run_cycle c w) =
           trace w @
           Step c UpdateTunableConstants # map Update (tunables self) @
           Step c UpdateTunablePIDs # map UpdateFromTunables (tunable_pids self) @
           [Step c PublishTelemetry, Step c Execute]"
    unfolding t by (simp add: cycle_events_def)
  moreover have "\<forall>r\<in>set (tunables self).
            tunable_values (run_cycle c w) r =
              map_option (\<lambda>tv. TunableValue_update (as_type_of (tv_default tv)) (store w) tv)
                (tunable_values w r)"
    by (simp add: run_cycle_tunable_values [OF assms])
  moreover have "\<forall>r\<in>set (tunable_pids self).
            pid_controllers (run_cycle c w) r =
              map_option (update_from_tunables (store w)) (pid_controllers w r)"
    by (simp add: run_cycle_pid_controllers [OF assms])
  ultimately show ?thesis
    using update_tunable_constants_some [OF assms] update_tunable_pids_some [OF assms]
      robot_periodic_steps [of w rb]
    by simp
qed

theorem lifecycle_fixed_order_witness:
  "components scenario_world 0 =
     Some \<lparr>robot = 7, tunables = [1], tunable_pids = [], cls = scenario_class, user = ()\<rparr> \<and>
   registry scenario_world 7 = [0] \<and>
   trace (run_cycle 0 scenario_world) =
     [Step 0 UpdateTunableConstants, Update 1, Step 0 UpdateTunablePIDs,
      Step 0 PublishTelemetry, Step 0 Execute] \<and>
   tunable_values (run_cycle 0 scenario_world) 1 =
     Some \<lparr>tv_key = ''K'', tv_default = TFloat 5, tv_value = TFloat 5\<rparr> \<and>
   (\<exists>es. trace (robot_periodic 7 scenario_world) = trace scenario_world @ es \<and>
      steps_of es = [(0, UpdateTunableConstants), (0, UpdateTunablePIDs),
                     (0, PublishTelemetry), (0, Execute)])"
proof -
  have c: "components scenario_world 0 =
     Some \<lparr>robot = 7, tunables = [1], tunable_pids = [], cls = scenario_class, user = ()\<rparr>"
    by (simp add: scenario_world_def)
  have r: "registry scenario_world 7 = [0]" and t: "trace scenario_world = []"
    and s: "store scenario_world = Map.empty"
    and v: "tunable_values scenario_world (Suc 0) =
              Some \<lparr>tv_key = ''K'', tv_default = TFloat 5, tv_value = TFloat 5\<rparr>"
    by (simp_all add: scenario_world_def)
  show ?thesis
    using lifecycle_fixed_order [OF c, of 7]
    by (simp add: c r t s v TunableValue_update_def)
qed


text \<open>
  Claim C6.  The construction of a \<open>TunablePIDController\<close> succeeds whenever the three
  default gains are not negative and the period is positive, and fails with
  \<open>ConfigurationError\<close> whenever the period is not positive or a default gain is negative.
  The factory \<open>tunablePID\<close> of a component hands its gains and its period to the
  constructor as they are, so it succeeds and fails on the same arguments.
\<close>

theorem pid_construction_validated:
  "(0 \<le> tv_default p \<and> 0 \<le> tv_default i \<and> 0 \<le> tv_default d \<and> 0 < per \<longrightarrow>
      (\<exists>pid. TunablePIDController_init p i d per = Inr pid \<and>
         kp pid = p \<and> ki pid = i \<and> kd pid = d \<and> period pid = per)) \<and>
   (per \<le> 0 \<or> tv_default p < 0 \<or> tv_default i < 0 \<or> tv_default d < 0 \<longrightarrow>
      TunablePIDController_init p i d per = Inl ConfigurationError) \<and>
   (components w c = Some self \<longrightarrow>
      (0 \<le> gp \<and> 0 \<le> gi \<and> 0 \<le> gd \<and> 0 < gper \<longrightarrow>
         (\<exists>r w' pid. tunablePID c gp gi gd directory gper w = Inr (r, w') \<and>
            pid_controllers w' r = Some pid \<and>
            TunablePIDController_init
              \<lparr>tv_key = directory @ ''/kp'', tv_default = gp, tv_value = gp\<rparr>
              \<lparr>tv_key = directory @ ''/ki'', tv_default = gi, tv_value = gi\<rparr>
              \<lparr>tv_key = directory @ ''/kd'', tv_default = gd, tv_value = gd\<rparr> gper = Inr pid \<and>
            tv_default (kp pid) = gp \<and> tv_default (ki pid) = gi \<and>
            tv_default (kd pid) = gd \<and> period pid = gper)) \<and>
      (gper \<le> 0 \<or> gp < 0 \<or> gi < 0 \<or> gd < 0 \<longrightarrow>
         tunablePID c gp gi gd directory gper w = Inl ConfigurationError))"
proof -
  have "components w c = Some self \<longrightarrow>
      (0 \<le> gp \<and> 0 \<le> gi \<and> 0 \<le> gd \<and> 0 < gper \<longrightarrow>
         (\<exists>r w' pid. tunablePID c gp gi gd directory gper w = Inr (r, w') \<and>
            pid_controllers w' r = Some pid \<and>
            TunablePIDController_init
              \<lparr>tv_key = directory @ ''/kp'', tv_default = gp, tv_value = gp\<rparr>
              \<lparr>tv_key = directory @ ''/ki'', tv_default = gi, tv_value = gi\<rparr>
              \<lparr>tv_key = directory @ ''/kd'', tv_default = gd, tv_value = gd\<rparr> gper = Inr pid \<and>
            tv_default (kp pid) = gp \<and> tv_default (ki pid) = gi \<and>
            tv_default (kd pid) = gd \<and> period pid = gper)) \<and>
      (gper \<le> 0 \<or> gp < 0 \<or> gi < 0 \<or> gd < 0 \<longrightarrow>
         tunablePID c gp gi gd directory gper w = Inl ConfigurationError)"
    by (auto simp add: tunablePID_total TunablePIDController_init_cases)
  then show ?thesis
    by (auto simp add: TunablePIDController_init_cases)
qed

theorem pid_construction_validated_witness:
  "components scenario_world 0 \<noteq> None \<and>
   (\<exists>r w' pid. tunablePID 0 1 0 (1/2) ''Tunables/PIDController'' (2/100) scenario_world =
        Inr (r, w') \<and> pid_controllers w' r = Some pid \<and>
        tv_default (kp pid) = 1 \<and> tv_default (ki pid) = 0 \<and> tv_default (kd pid) = 1/2 \<and>
        period pid = 2/100) \<and>
   tunablePID 0 1 0 (1/2) ''Tunables/PIDController'' 0 scenario_world =
     Inl ConfigurationError \<and>
   TunablePIDController_init
     \<lparr>tv_key = ''a'', tv_default = 1, tv_value = 1\<rparr>
     \<lparr>tv_key = ''b'', tv_default = - 1, tv_value = - 1\<rparr>
     \<lparr>tv_key = ''c'', tv_default = 0, tv_value = 0\<rparr> (2/100) = Inl ConfigurationError \<and>
   (\<exists>pid. TunablePIDController_init
     \<lparr>tv_key = ''a'', tv_default = 1, tv_value = 1\<rparr>
     \<lparr>tv_key = ''b'', tv_default = 0, tv_value = 0\<rparr>
     \<lparr>tv_key = ''c'', tv_default = 0, tv_value = 0\<rparr> (2/100) = Inr pid)"
proof -
  have c: "components scenario_world 0 =
     Some \<lparr>robot = 7, tunables = [1], tunable_pids = [], cls = scenario_class, user = ()\<rparr>"
    by (simp add: scenario_world_def)
  show ?thesis
    using pid_construction_validated
      [where p = "\<lparr>tv_key = ''a'', tv_default = 1, tv_value = 1\<rparr>"
         and i = "\<lparr>tv_key = ''b'', tv_default = - 1, tv_value = - 1\<rparr>"
         and d = "\<lparr>tv_key = ''c'', tv_default = 0, tv_value = 0\<rparr>" and per = "2/100"
         and w = scenario_world and c = 0 and gp = 1 and gi = 0 and gd = "1/2"
         and gper = "2/100" and directory = "''Tunables/PIDController''"
         and self = "\<lparr>robot = 7, tunables = [1], tunable_pids = [], cls = scenario_class,
                      user = ()\<rparr>"]
      pid_construction_validated
      [where p = "\<lparr>tv_key = ''a'', tv_default = 1, tv_value = 1\<rparr>"
         and i = "\<lparr>tv_key = ''b'', tv_default = 0, tv_value = 0\<rparr>"
         and d = "\<lparr>tv_key = ''c'', tv_default = 0, tv_value = 0\<rparr>" and per = "2/100"
         and w = scenario_world and c = 0 and gp = 1 and gi = 0 and gd = "1/2"
         and gper = 0 and directory = "''Tunables/PIDController''"
         and self = "\<lparr>robot = 7, tunables = [1], tunable_pids = [], cls = scenario_class,
                      user = ()\<rparr>"]
    by (simp add: c) blast
qed

text \<open>
  Claim C7.  The instantiation of a subclass of \<open>AdaptiveComponent\<close> that does not define
  \<open>execute\<close> fails, with \<open>TypeError\<close> and before an object exists, so never at a first
  call of \<open>execute\<close>; the instantiation of a subclass that defines \<open>execute\<close> succeeds.
\<close>

theorem missing_execute_fails_at_construction:
  "(defines_execute k = None \<longrightarrow> instantiate k rb u w = Inl TypeError) \<and>
   (defines_execute k \<noteq> None \<longrightarrow>
      (\<exists>c w' self. instantiate k rb u w = Inr (c, w') \<and>
         components w' c = Some self \<and> cls self = k)) \<and>
   (\<forall>c w'. instantiate k rb u w = Inr (c, w') \<longrightarrow> defines_execute k \<noteq> None)"
  by (auto simp add: instantiate_def abstractmethods_def overrides_def
      AdaptiveComponent_init_def add_component_def Let_def)

theorem missing_execute_fails_at_construction_witness:
  "defines_execute abstract_class = None \<and>
   instantiate abstract_class 7 () empty_world = Inl TypeError \<and>
   defines_execute scenario_class \<noteq> None \<and>
   (\<exists>c w' self. instantiate scenario_class 7 () empty_world = Inr (c, w') \<and>
      components w' c = Some self \<and> cls self = scenario_class)"
proof -
  have a: "defines_execute abstract_class = None"
    by (simp add: abstract_class_def)
  have s: "defines_execute scenario_class \<noteq> None"
    by (simp add: scenario_class_def)
  show ?thesis
    using missing_execute_fails_at_construction
        [where k = abstract_class and rb = 7 and u = "()" and w = empty_world]
      missing_execute_fails_at_construction
        [where k = scenario_class and rb = 7 and u = "()" and w = empty_world]
      a s
    by simp
qed

text \<open>
  Claim C8.  The construction of a component registers it, through \<open>add_component\<close>, with
  the robot handed to the constructor and with no other: in the world that the
  constructor returns the new component is once in the list of that robot and in the
  list of no other robot, whose lists are as before.
\<close>

theorem construction_registers_with_robot:
  assumes "wf_world w" and "instantiate k rb u w = Inr (c, w')"
  shows "w' = AdaptiveComponent_init c rb k u (w\<lparr>next_ref := Suc c\<rparr>) \<and>
         registry w' = registry (add_component rb c w) \<and>
         registry w' rb = registry w rb @ [c] \<and>
         (\<forall>rb'. rb' \<noteq> rb \<longrightarrow> registry w' rb' = registry w rb') \<and>
         (\<forall>rb'. c \<notin> set (registry w rb')) \<and>
         (\<forall>rb'. count_list (registry w' rb') c = (if rb' = rb then 1 else 0)) \<and>
         components w c = None \<and>
         (\<exists>self. components w' c = Some self \<and> robot self = rb)"
proof (intro conjI)
  from assms(2) have c: "c = next_ref w"
    and w': "w' = AdaptiveComponent_init c rb k u (w\<lparr>next_ref := Suc c\<rparr>)"
    by (auto simp add: instantiate_def Let_def split: if_splits)
  show "w' = AdaptiveComponent_init c rb k u (w\<lparr>next_ref := Suc c\<rparr>)"
    by (rule w')
  show fresh: "\<forall>rb'. c \<notin> set (registry w rb')"
    using assms(1) unfolding wf_world_def c by blast
  show "components w c = None"
    using assms(1) unfolding wf_world_def c by blast
  have reg: "registry w' = (registry w)(rb := registry w rb @ [c])"
    unfolding w' by (simp add: AdaptiveComponent_init_def add_component_def Let_def)
  show "registry w' = registry (add_component rb c w)"
    by (simp add: reg add_component_def)
  show "registry w' rb = registry w rb @ [c]"
    by (simp add: reg)
  show "\<forall>rb'. rb' \<noteq> rb \<longrightarrow> registry w' rb' = registry w rb'"
    by (simp add: reg)
  show "\<forall>rb'. count_list (registry w' rb') c = (if rb' = rb then 1 else 0)"
    using fresh by (simp add: reg count_list_0_iff)
  show "\<exists>self. components w' c = Some self \<and> robot self = rb"
    unfolding w' by (simp add: AdaptiveComponent_init_def add_component_def Let_def)
qed

theorem construction_registers_with_robot_witness:
  "wf_world (empty_world :: unit world) \<and>
   instantiate scenario_class 7 () empty_world =
     Inr (0, AdaptiveComponent_init 0 7 scenario_class () (empty_world\<lparr>next_ref := Suc 0\<rparr>)) \<and>
   registry (AdaptiveComponent_init 0 7 scenario_class () (empty_world\<lparr>next_ref := Suc 0\<rparr>)) 7
     = [0] \<and>
   registry (AdaptiveComponent_init 0 7 scenario_class () (empty_world\<lparr>next_ref := Suc 0\<rparr>)) 3
     = [] \<and>
   count_list
     (registry (AdaptiveComponent_init 0 7 scenario_class () (empty_world\<lparr>next_ref := Suc 0\<rparr>)) 7)
     0 = 1"
proof -
  have n: "next_ref (empty_world :: unit world) = 0"
    by (simp add: empty_world_def)
  have i: "instantiate scenario_class 7 () empty_world =
     Inr (0, AdaptiveComponent_init 0 7 scenario_class () (empty_world\<lparr>next_ref := Suc 0\<rparr>))"
    by (simp add: instantiate_def abstractmethods_def overrides_def scenario_class_def n)
  have r: "registry (empty_world :: unit world) = (\<lambda>_. [])"
    by (simp add: empty_world_def)
  show ?thesis
    using construction_registers_with_robot [OF wf_empty_world i] i wf_empty_world
    by (simp add: r add_component_def)
qed


lemma wf_world_fresh:
  "wf_world w \<Longrightarrow> components w c = Some self \<Longrightarrow>
     tunable_values w (next_ref w) = None \<and> pid_controllers w (next_ref w) = None \<and>
     next_ref w \<notin> set (tunables self) \<and> next_ref w \<notin> set (tunable_pids self)"
  unfolding wf_world_def by (metis UnCI domIff less_irrefl option.exhaust)

text \<open>
  Claim C9.  Every call of the factory \<open>tunable\<close> or \<open>tunablePID\<close> of a component that
  returns creates a new \<open>TunableValue\<close> or \<open>TunablePIDController\<close>, appends it at the end
  of the respective list of the component, leaves the other list as it is and returns
  that very object; a call with arguments that the constructors accept (a key that is not
  empty; gains that are not negative and a positive period) does return.  Both lists only
  grow: after any sequence of operations on components, the lists as they were are
  prefixes of the lists as they are.
\<close>

theorem factories_append_and_return:
  assumes "wf_world w" and "components w c = Some self"
  shows "(\<forall>directory dflt.
            (directory \<noteq> [] \<longrightarrow> (\<exists>r w'. tunable c directory dflt w = Inr (r, w'))) \<and>
            (\<forall>r w'. tunable c directory dflt w = Inr (r, w') \<longrightarrow>
               tunable_values w r = None \<and> r \<notin> set (tunables self) \<and>
               tunable_values w' r =
                 Some \<lparr>tv_key = directory, tv_default = dflt, tv_value = dflt\<rparr> \<and>
               (\<exists>self'. components w' c = Some self' \<and>
                  tunables self' = tunables self @ [r] \<and>
                  tunable_pids self' = tunable_pids self))) \<and>
         (\<forall>p i d directory per.
            (0 \<le> p \<and> 0 \<le> i \<and> 0 \<le> d \<and> 0 < per \<longrightarrow>
               (\<exists>r w'. tunablePID c p i d directory per w = Inr (r, w'))) \<and>
            (\<forall>r w'. tunablePID c p i d directory per w = Inr (r, w') \<longrightarrow>
               pid_controllers w r = None \<and> r \<notin> set (tunable_pids self) \<and>
               (\<exists>pid. pid_controllers w' r = Some pid \<and>
                  TunablePIDController_init
                    \<lparr>tv_key = directory @ ''/kp'', tv_default = p, tv_value = p\<rparr>
                    \<lparr>tv_key = directory @ ''/ki'', tv_default = i, tv_value = i\<rparr>
                    \<lparr>tv_key = directory @ ''/kd'', tv_default = d, tv_value = d\<rparr> per =
                      Inr pid) \<and>
               (\<exists>self'. components w' c = Some self' \<and>
                  tunable_pids self' = tunable_pids self @ [r] \<and>
                  tunables self' = tunables self))) \<and>
         (\<forall>ops. \<exists>self'. components (after ops w) c = Some self' \<and>
            prefix (tunables self) (tunables self') \<and>
            prefix (tunable_pids self) (tunable_pids self'))"
proof (intro conjI allI)
  fix directory dflt
  show "directory \<noteq> [] \<longrightarrow> (\<exists>r w'. tunable c directory dflt w = Inr (r, w'))"
    by (simp add: tunable_total [OF assms(2)])
next
  note fresh = wf_world_fresh [OF assms]
  fix directory dflt r w'
  show "tunable c directory dflt w = Inr (r, w') \<longrightarrow>
               tunable_values w r = None \<and> r \<notin> set (tunables self) \<and>
               tunable_values w' r =
                 Some \<lparr>tv_key = directory, tv_default = dflt, tv_value = dflt\<rparr> \<and>
               (\<exists>self'. components w' c = Some self' \<and>
                  tunables self' = tunables self @ [r] \<and>
                  tunable_pids self' = tunable_pids self)"
    using fresh by (auto simp add: tunable_total [OF assms(2)] split: if_splits)
next
  fix p i d :: real and directory :: string and per :: real
  show "0 \<le> p \<and> 0 \<le> i \<and> 0 \<le> d \<and> 0 < per \<longrightarrow>
               (\<exists>r w'. tunablePID c p i d directory per w = Inr (r, w'))"
    by (simp add: tunablePID_total [OF assms(2)] TunablePIDController_init_cases)
next
  note fresh = wf_world_fresh [OF assms]
  fix p i d :: real and directory :: string and per :: real and r w'
  show "tunablePID c p i d directory per w = Inr (r, w') \<longrightarrow>
               pid_controllers w r = None \<and> r \<notin> set (tunable_pids self) \<and>
               (\<exists>pid. pid_controllers w' r = Some pid \<and>
                  TunablePIDController_init
                    \<lparr>tv_key = directory @ ''/kp'', tv_default = p, tv_value = p\<rparr>
                    \<lparr>tv_key = directory @ ''/ki'', tv_default = i, tv_value = i\<rparr>
                    \<lparr>tv_key = directory @ ''/kd'', tv_default = d, tv_value = d\<rparr> per =
                      Inr pid) \<and>
               (\<exists>self'. components w' c = Some self' \<and>
                  tunable_pids self' = tunable_pids self @ [r] \<and>
                  tunables self' = tunables self)"
    using fresh
    by (auto simp add: tunablePID_total [OF assms(2)] TunablePIDController_init_cases
        split: if_splits)
next
  fix ops
  show "\<exists>self'. components (after ops w) c = Some self' \<and>
            prefix (tunables self) (tunables self') \<and>
            prefix (tunable_pids self) (tunable_pids self')"
    using after_extends [of w ops] assms(2) unfolding extends_def by blast
qed

theorem factories_append_and_return_witness:
  "wf_world scenario_world \<and>
   components scenario_world 0 =
     Some \<lparr>robot = 7, tunables = [1], tunable_pids = [], cls = scenario_class, user = ()\<rparr> \<and>
   ''L'' \<noteq> [] \<and>
   (\<exists>w' self'. tunable 0 ''L'' (TInt 3) scenario_world = Inr (2, w') \<and>
      tunable_values w' 2 = Some \<lparr>tv_key = ''L'', tv_default = TInt 3, tv_value = TInt 3\<rparr> \<and>
      components w' 0 = Some self' \<and> tunables self' = [1, 2] \<and> tunable_pids self' = []) \<and>
   (0::real) \<le> 1 \<and> (0::real) < 2/100 \<and>
   (\<exists>w' self'. tunablePID 0 1 0 0 ''P'' (2/100) scenario_world = Inr (2, w') \<and>
      components w' 0 = Some self' \<and> tunable_pids self' = [2] \<and> tunables self' = [1])"
proof -
  have c: "components scenario_world 0 =
     Some \<lparr>robot = 7, tunables = [1], tunable_pids = [], cls = scenario_class, user = ()\<rparr>"
    by (simp add: scenario_world_def)
  have n: "next_ref scenario_world = 2"
    by (simp add: scenario_world_def)
  note f = factories_append_and_return [OF wf_scenario_world c]
  from f obtain r w' where t: "tunable 0 ''L'' (TInt 3) scenario_world = Inr (r, w')"
    by (metis list.distinct(1))
  have r: "r = 2"
    using t by (auto simp add: tunable_total [OF c] n)
  from f t have "tunable_values w' r =
        Some \<lparr>tv_key = ''L'', tv_default = TInt 3, tv_value = TInt 3\<rparr> \<and>
      (\<exists>self'. components w' 0 = Some self' \<and> tunables self' = [1] @ [r] \<and>
         tunable_pids self' = [])"
    by (metis AdaptiveComponent.select_convs(2,3))
  then have T: "\<exists>w' self'. tunable 0 ''L'' (TInt 3) scenario_world = Inr (2, w') \<and>
      tunable_values w' 2 = Some \<lparr>tv_key = ''L'', tv_default = TInt 3, tv_value = TInt 3\<rparr> \<and>
      components w' 0 = Some self' \<and> tunables self' = [1, 2] \<and> tunable_pids self' = []"
    using t r by auto
  have "(0::real) \<le> 1 \<and> (0::real) \<le> 0 \<and> (0::real) \<le> 0 \<and> (0::real) < 2/100"
    by simp
  with f obtain q v' where p: "tunablePID 0 1 0 0 ''P'' (2/100) scenario_world = Inr (q, v')"
    by meson
  have q: "q = 2"
    using p by (auto simp add: tunablePID_total [OF c] TunablePIDController_init_cases n)
  from f p have "\<exists>self'. components v' 0 = Some self' \<and> tunable_pids self' = [] @ [q] \<and>
         tunables self' = [1]"
    by (metis AdaptiveComponent.select_convs(2,3))
  then have P: "\<exists>w' self'. tunablePID 0 1 0 0 ''P'' (2/100) scenario_world = Inr (2, w') \<and>
      components w' 0 = Some self' \<and> tunable_pids self' = [2] \<and> tunables self' = [1]"
    using p q by auto
  show ?thesis
    using T P c wf_scenario_world by simp
qed

end
